theory Spec2Isabelle
  imports Main
begin

section \<open>The batched ingestion pipeline of package database\<close>

text \<open>
  The optimized \<open>Database\<close> keeps one buffered channel per event kind
  (\<open>messageBatch\<close>, \<open>deletedBatch\<close>, \<open>editedBatch\<close>, \<open>mentionBatch\<close>), one
  \<open>processBatch\<close> goroutine per channel and one store collection per kind.
  \<open>processBatch\<close> takes its channel as \<open>interface{}\<close> and its four type-switch
  branches are identical, so the model is polymorphic in the record type \<open>'a\<close>.
\<close>

datatype kind = Message | Deleted | Edited | Mention

fun collectionName :: "kind \<Rightarrow> string" where
  "collectionName Message = ''user_messages''"
| "collectionName Deleted = ''deleted_messages''"
| "collectionName Edited = ''edited_messages''"
| "collectionName Mention = ''mentions''"

text \<open>Capacities of the four channels made by \<open>New\<close>.\<close>

fun chan_capacity :: "kind \<Rightarrow> nat" where
  "chan_capacity Message = 2000"
| "chan_capacity Deleted = 1000"
| "chan_capacity Edited = 1000"
| "chan_capacity Mention = 500"

text \<open>
  The errors of the store client. \<open>InsertMany\<close> hands back \<open>nil\<close>, a
  \<open>mongo.BulkWriteException\<close> carrying one write error per rejected document
  (index into the batch, store error code), or some other error (the store could
  not be reached, the context expired); \<open>InsertOne\<close> hands back \<open>nil\<close>, a
  \<open>mongo.WriteException\<close> or some other error. A \<open>nil\<close> error is \<open>None\<close>.
\<close>

datatype write_error = WriteError (Index: nat) (Code: int)

datatype mongo_error =
    WriteException "write_error list"
  | BulkWriteException "write_error list"
  | OtherError string

datatype log_entry =
    Warn string
  | Errorf_bulk string nat
  | Errorf_insert string mongo_error
  | Debugf_inserted nat string

text \<open>
  Program counter of one \<open>processBatch\<close> goroutine: at the outer \<open>select\<close>,
  inside the \<open>default\<close> branch at the inner \<open>select\<close> (channel receive against
  \<open>time.After(10ms)\<close>), or returned.
\<close>

datatype pc = AtSelect | AtInner | Exited

text \<open>The case a \<open>select\<close> statement takes.\<close>

datatype choice = SelDone | SelTick | SelDefault | InnerRecv | InnerTimeout

text \<open>
  Everything that belongs to one event kind: the buffered channel (\<open>buf\<close>,
  \<open>cap\<close>, whether \<open>Close\<close> has closed it), the locals of its \<open>processBatch\<close>
  goroutine (\<open>batch\<close>, whether a tick is waiting in \<open>ticker.C\<close>, the program
  counter), the documents of its collection in the store, the batches the
  store has been sent through \<open>InsertMany\<close>, and the log lines about this kind.
\<close>

record 'a pipe =
  buf :: "'a list"
  cap :: nat
  chan_closed :: bool
  batch :: "'a list"
  tickC :: bool
  pc :: pc
  coll :: "'a list"
  bulk_writes :: "'a list list"
  logs :: "log_entry list"

datatype close_pc = NotCalled | Waiting | Returned

record 'a database =
  batchSize :: nat
  ctx_done :: bool
  wg :: nat
  pipes :: "kind \<Rightarrow> 'a pipe"
  client_connected :: bool
  close_state :: close_pc

definition new_pipe :: "nat \<Rightarrow> 'a pipe" where
  "new_pipe n = \<lparr>buf = [], cap = n, chan_closed = False, batch = [], tickC = False,
                 pc = AtSelect, coll = [], bulk_writes = [], logs = []\<rparr>"

text \<open>
  \<open>New\<close> after a successful connect and ping, \<open>startBatchProcessors\<close> included:
  \<open>wg.Add(4)\<close> and four goroutines about to enter their loop.
\<close>

definition New :: "'a database" where
  "New = \<lparr>batchSize = 1000, ctx_done = False, wg = 4,
          pipes = (\<lambda>k. new_pipe (chan_capacity k)),
          client_connected = True, close_state = NotCalled\<rparr>"

subsection \<open>Non-blocking send\<close>

datatype panic = SendOnClosedChannel | MakesliceCapOutOfRange | NilPointerDereference

text \<open>
  \<open>select { case ch <- msg: ... default: ... }\<close>: the send case is taken when the
  buffer has room, the default case otherwise; a send on a closed channel
  panics. The flag tells which case ran.
\<close>

definition try_send :: "'a pipe \<Rightarrow> 'a \<Rightarrow> panic + ('a pipe \<times> bool)" where
  "try_send p x =
     (if chan_closed p then Inl SendOnClosedChannel
      else if length (buf p) < cap p then Inr (p\<lparr>buf := buf p @ [x]\<rparr>, True)
      else Inr (p, False))"

text \<open>
  \<open>StoreMessage\<close>, \<open>StoreDeletedMessage\<close>, \<open>StoreEditedMessage\<close> and \<open>StoreMention\<close>.
  The Go functions have no result: the model returns the new state and the unit
  value. \<open>result_of\<close> is what the caller gets back.
\<close>

definition StoreMessage :: "'a database \<Rightarrow> 'a \<Rightarrow> panic + ('a database \<times> unit)" where
  "StoreMessage d msg =
     (case try_send (pipes d Message) msg of
        Inl e \<Rightarrow> Inl e
      | Inr (p, sent) \<Rightarrow>
          Inr (d\<lparr>pipes := (pipes d)(Message :=
                 (if sent then p
                  else p\<lparr>logs := logs p @ [Warn ''Message batch channel full, dropping message'']\<rparr>))\<rparr>,
               ()))"

definition StoreDeletedMessage :: "'a database \<Rightarrow> 'a \<Rightarrow> panic + ('a database \<times> unit)" where
  "StoreDeletedMessage d msg =
     (case try_send (pipes d Deleted) msg of
        Inl e \<Rightarrow> Inl e
      | Inr (p, sent) \<Rightarrow>
          Inr (d\<lparr>pipes := (pipes d)(Deleted :=
                 (if sent then p
                  else p\<lparr>logs := logs p @
                         [Warn ''Deleted message batch channel full, dropping message'']\<rparr>))\<rparr>,
               ()))"

definition StoreEditedMessage :: "'a database \<Rightarrow> 'a \<Rightarrow> panic + ('a database \<times> unit)" where
  "StoreEditedMessage d msg =
     (case try_send (pipes d Edited) msg of
        Inl e \<Rightarrow> Inl e
      | Inr (p, sent) \<Rightarrow>
          Inr (d\<lparr>pipes := (pipes d)(Edited :=
                 (if sent then p
                  else p\<lparr>logs := logs p @
                         [Warn ''Edited message batch channel full, dropping message'']\<rparr>))\<rparr>,
               ()))"

definition StoreMention :: "'a database \<Rightarrow> 'a \<Rightarrow> panic + ('a database \<times> unit)" where
  "StoreMention d mention =
     (case try_send (pipes d Mention) mention of
        Inl e \<Rightarrow> Inl e
      | Inr (p, sent) \<Rightarrow>
          Inr (d\<lparr>pipes := (pipes d)(Mention :=
                 (if sent then p
                  else p\<lparr>logs := logs p @ [Warn ''Mention batch channel full, dropping message'']\<rparr>))\<rparr>,
               ()))"

definition result_of :: "panic + ('s \<times> 'r) \<Rightarrow> panic + 'r" where
  "result_of res = (case res of Inl e \<Rightarrow> Inl e | Inr (_, v) \<Rightarrow> Inr v)"

text \<open>The \<open>Store\<close> function of each kind, and the warning it logs when it drops.\<close>

fun store :: "kind \<Rightarrow> 'a database \<Rightarrow> 'a \<Rightarrow> panic + ('a database \<times> unit)" where
  "store Message = StoreMessage"
| "store Deleted = StoreDeletedMessage"
| "store Edited = StoreEditedMessage"
| "store Mention = StoreMention"

fun full_warning :: "kind \<Rightarrow> string" where
  "full_warning Message = ''Message batch channel full, dropping message''"
| "full_warning Deleted = ''Deleted message batch channel full, dropping message''"
| "full_warning Edited = ''Edited message batch channel full, dropping message''"
| "full_warning Mention = ''Mention batch channel full, dropping message''"

subsection \<open>The store's bulk insert and \<open>flushBatch\<close>\<close>

text \<open>
  The store side of \<open>InsertMany\<close> with \<open>SetOrdered(false)\<close>: with no error every
  document of the batch is written; with a bulk write exception the documents
  whose index carries a write error are left out and the others are written;
  with any other error nothing is written.
\<close>

definition InsertMany :: "'a list \<Rightarrow> 'a list \<Rightarrow> mongo_error option \<Rightarrow> 'a list" where
  "InsertMany c b r =
     (case r of
        None \<Rightarrow> c @ b
      | Some (BulkWriteException errs) \<Rightarrow>
          c @ map (\<lambda>i. b ! i) (filter (\<lambda>i. i \<notin> Index ` set errs) [0..<length b])
      | Some _ \<Rightarrow> c)"

text \<open>The counting loop of \<open>flushBatch\<close> over \<open>bulkErr.WriteErrors\<close>.\<close>

definition nonDuplicates :: "write_error list \<Rightarrow> nat" where
  "nonDuplicates errs = fold (\<lambda>writeErr n. if Code writeErr \<noteq> 11000 then n + 1 else n) errs 0"

definition flush_logs :: "string \<Rightarrow> nat \<Rightarrow> mongo_error option \<Rightarrow> log_entry list" where
  "flush_logs collection n r =
     (case r of
        Some (BulkWriteException errs) \<Rightarrow>
          (if nonDuplicates errs > 0 then [Errorf_bulk collection (nonDuplicates errs)] else [])
      | Some e \<Rightarrow> [Errorf_insert collection e]
      | None \<Rightarrow> [Debugf_inserted n collection])"

text \<open>
  \<open>flushBatch\<close>: nothing on an empty batch; otherwise one \<open>InsertMany\<close> call with
  the whole batch, then logging according to the error. It returns nothing and
  touches neither the channel nor the caller's \<open>batch\<close> variable.
\<close>

definition flushBatch :: "string \<Rightarrow> 'a list \<Rightarrow> mongo_error option \<Rightarrow> 'a pipe \<Rightarrow> 'a pipe" where
  "flushBatch collection b r p =
     (if length b = 0 then p
      else p\<lparr>coll := InsertMany (coll p) b r,
             bulk_writes := bulk_writes p @ [b],
             logs := logs p @ flush_logs collection (length b) r\<rparr>)"

subsection \<open>\<open>processBatch\<close>, one \<open>select\<close> at a time\<close>

text \<open>
  One move of the goroutine. At the outer \<open>select\<close> the \<open>ctx.Done()\<close> case needs
  the context cancelled, the \<open>ticker.C\<close> case needs a waiting tick, and the
  \<open>default\<close> case runs only when neither is ready. At the inner \<open>select\<close> the
  receive needs a record in the channel; the \<open>time.After(10 * time.Millisecond)\<close>
  case is the timer firing, after which \<open>continue\<close> returns to the outer
  \<open>select\<close>. A move that the state does not allow is \<open>None\<close>. The reply of
  the store is used only where the move calls \<open>InsertMany\<close>.
\<close>

definition processBatch ::
  "nat \<Rightarrow> bool \<Rightarrow> string \<Rightarrow> choice \<Rightarrow> mongo_error option \<Rightarrow> 'a pipe \<Rightarrow> 'a pipe option" where
  "processBatch bsize cancelled collection c r p =
     (case (pc p, c) of
        (AtSelect, SelDone) \<Rightarrow>
          if cancelled
          then Some ((if length (batch p) > 0 then flushBatch collection (batch p) r p else p)
                       \<lparr>pc := Exited\<rparr>)
          else None
      | (AtSelect, SelTick) \<Rightarrow>
          if tickC p
          then Some (if length (batch p) > 0
                     then (flushBatch collection (batch p) r (p\<lparr>tickC := False\<rparr>))\<lparr>batch := []\<rparr>
                     else p\<lparr>tickC := False\<rparr>)
          else None
      | (AtSelect, SelDefault) \<Rightarrow>
          if \<not> cancelled \<and> \<not> tickC p then Some (p\<lparr>pc := AtInner\<rparr>) else None
      | (AtInner, InnerRecv) \<Rightarrow>
          (case buf p of
             [] \<Rightarrow> None
           | msg # rest \<Rightarrow>
               let p1 = p\<lparr>buf := rest, batch := batch p @ [msg], pc := AtSelect\<rparr>
               in Some (if length (batch p1) \<ge> bsize
                        then (flushBatch collection (batch p1) r p1)\<lparr>batch := []\<rparr>
                        else p1))
      | (AtInner, InnerTimeout) \<Rightarrow> Some (p\<lparr>pc := AtSelect\<rparr>)
      | _ \<Rightarrow> None)"

subsection \<open>The whole database as a transition system\<close>

text \<open>
  What can happen: a producer calls one of the four \<open>Store\<close> functions, the
  ticker of a running goroutine delivers a tick (its channel holds at most one),
  a \<open>processBatch\<close> goroutine makes a move, \<open>Close\<close> starts (logs, \<open>d.cancel()\<close>,
  then blocks in \<open>d.wg.Wait()\<close>), and \<open>Close\<close> finishes once the wait group is
  at zero (closes the four channels, disconnects the client).
\<close>

datatype 'a event =
    Store kind 'a
  | TickerFire kind
  | Proc kind choice "mongo_error option"
  | CloseBegin
  | CloseEnd

definition proc_step :: "kind \<Rightarrow> choice \<Rightarrow> mongo_error option \<Rightarrow> 'a database \<Rightarrow> 'a database option" where
  "proc_step k c r d =
     (case processBatch (batchSize d) (ctx_done d) (collectionName k) c r (pipes d k) of
        None \<Rightarrow> None
      | Some p \<Rightarrow> Some (d\<lparr>pipes := (pipes d)(k := p),
                          wg := (if pc p = Exited then wg d - 1 else wg d)\<rparr>))"

definition Close_begin :: "'a database \<Rightarrow> 'a database option" where
  "Close_begin d =
     (if close_state d = NotCalled then Some (d\<lparr>ctx_done := True, close_state := Waiting\<rparr>)
      else None)"

definition Close_end :: "'a database \<Rightarrow> 'a database option" where
  "Close_end d =
     (if close_state d = Waiting \<and> wg d = 0
      then Some (d\<lparr>pipes := (\<lambda>k. (pipes d k)\<lparr>chan_closed := True\<rparr>),
                   client_connected := False, close_state := Returned\<rparr>)
      else None)"

fun step :: "'a event \<Rightarrow> 'a database \<Rightarrow> 'a database option" where
  "step (Store k x) d = (case store k d x of Inl _ \<Rightarrow> None | Inr (d', _) \<Rightarrow> Some d')"
| "step (TickerFire k) d =
     (if pc (pipes d k) = Exited then None
      else Some (d\<lparr>pipes := (pipes d)(k := (pipes d k)\<lparr>tickC := True\<rparr>)\<rparr>))"
| "step (Proc k c r) d = proc_step k c r d"
| "step CloseBegin d = Close_begin d"
| "step CloseEnd d = Close_end d"

fun run :: "'a event list \<Rightarrow> 'a database \<Rightarrow> 'a database option" where
  "run [] d = Some d"
| "run (e # es) d = (case step e d of None \<Rightarrow> None | Some d' \<Rightarrow> run es d')"

subsection \<open>Channel and batch bounds\<close>

text \<open>A mention queue filled to its capacity of 500.\<close>

definition mention_queue_full :: "nat database" where
  "mention_queue_full =
     New\<lparr>pipes := (pipes New)(Mention := (new_pipe 500)\<lparr>buf := replicate 500 0\<rparr>)\<rparr>"

text \<open>A channel keeps its capacity and holds no more than that.\<close>

definition chan_ok :: "nat \<Rightarrow> 'a pipe \<Rightarrow> bool" where
  "chan_ok n p = (cap p = n \<and> length (buf p) \<le> n)"


text \<open>
  Two states at which a flush is due: the deleted-message goroutine
  at the inner \<open>select\<close> with 999 records in its batch and one in the channel,
  and the same goroutine at the outer \<open>select\<close> with one record in its batch and
  a tick waiting.
\<close>

definition deleted_batch_999 :: "nat database" where
  "deleted_batch_999 =
     New\<lparr>pipes := (pipes New)(Deleted :=
           (new_pipe 1000)\<lparr>buf := [0], batch := replicate 999 0, pc := AtInner\<rparr>)\<rparr>"




subsection \<open>Shutdown bookkeeping\<close>

text \<open>
  Bookkeeping for shutdown: the number of \<open>processBatch\<close> goroutines that have not
  returned, and the records of one kind that are in the store, in the batch of a
  goroutine that can still flush it, or in the channel, oldest first.
\<close>

definition all_kinds :: "kind list" where
  "all_kinds = [Message, Deleted, Edited, Mention]"

definition running :: "'a database \<Rightarrow> nat" where
  "running d = length (filter (\<lambda>k. pc (pipes d k) \<noteq> Exited) all_kinds)"

definition held :: "'a pipe \<Rightarrow> 'a list" where
  "held p = coll p @ (if pc p = Exited then [] else batch p) @ buf p"

text \<open>A schedule without store failures: every \<open>InsertMany\<close> answers \<open>nil\<close>.\<close>

fun no_failure :: "'a event \<Rightarrow> bool" where
  "no_failure (Proc k c r) = (r = None)"
| "no_failure _ = True"

text \<open>
  The records of kind \<open>k\<close> that the \<open>Store\<close> calls of a schedule put into the
  channel (those that found room), in order.
\<close>

fun accepted_by :: "kind \<Rightarrow> 'a event \<Rightarrow> 'a database \<Rightarrow> 'a list" where
  "accepted_by k (Store k' x) d =
     (if k' = k \<and> length (buf (pipes d k)) < cap (pipes d k) then [x] else [])"
| "accepted_by k _ d = []"

fun accepted :: "kind \<Rightarrow> 'a event list \<Rightarrow> 'a database \<Rightarrow> 'a list" where
  "accepted k [] d = []"
| "accepted k (e # es) d =
     (case step e d of None \<Rightarrow> [] | Some d' \<Rightarrow> accepted_by k e d @ accepted k es d')"

text \<open>
  A shutdown with three deleted-message records pending: the goroutine has taken
  the first into its batch, the other two are still in the channel when \<open>Close\<close>
  cancels the context; every goroutine then takes its \<open>ctx.Done()\<close> case and
  \<open>Close\<close> finishes. \<open>after_shutdown\<close> is the state this ends in.
\<close>

definition shutdown_schedule :: "nat event list" where
  "shutdown_schedule =
     [Store Deleted 1, Store Deleted 2, Store Deleted 3,
      Proc Deleted SelDefault None, Proc Deleted InnerRecv None,
      CloseBegin,
      Proc Message SelDone None, Proc Deleted SelDone None,
      Proc Edited SelDone None, Proc Mention SelDone None,
      CloseEnd]"

definition after_shutdown :: "nat database" where
  "after_shutdown =
     \<lparr>batchSize = 1000, ctx_done = True, wg = 0,
      pipes = (\<lambda>k. (new_pipe (chan_capacity k))\<lparr>chan_closed := True, pc := Exited\<rparr>)
        (Deleted := \<lparr>buf = [2, 3], cap = 1000, chan_closed = True, batch = [1], tickC = False,
                      pc = Exited, coll = [1], bulk_writes = [[1]],
                      logs = [Debugf_inserted 1 ''deleted_messages'']\<rparr>),
      client_connected = False, close_state = Returned\<rparr>"



text \<open>What \<open>Close\<close> and the wait group keep true.\<close>

definition close_inv :: "'a database \<Rightarrow> bool" where
  "close_inv d =
     (wg d = running d
      \<and> client_connected d = (close_state d \<noteq> Returned)
      \<and> ctx_done d = (close_state d \<noteq> NotCalled)
      \<and> (close_state d = Returned \<longrightarrow> running d = 0))"

section \<open>The direct store \<open>SimpleDatabase\<close>\<close>

text \<open>
  The record types of the direct store, one collection of each in the store.
  Times are instants on a linear scale (\<open>time.Time\<close> as an integer).
\<close>

record SimpleMessageData =
  smsg_ID :: string
  smsg_MessageID :: string
  smsg_UserID :: string
  smsg_Username :: string
  smsg_Content :: string
  smsg_CreatedAt :: int
  smsg_ChannelID :: string
  smsg_ChannelName :: string
  smsg_ChannelType :: string
  smsg_IsGroup :: bool
  smsg_Attachments :: "string list"
  smsg_InstanceID :: string
  smsg_IsSelf :: bool
  smsg_GuildID :: string
  smsg_GuildName :: string

record SimpleDeletedMessageData =
  sdel_MessageID :: string
  sdel_UserID :: string
  sdel_Username :: string
  sdel_Content :: string
  sdel_DeletedAt :: int
  sdel_ChannelID :: string
  sdel_ChannelName :: string
  sdel_ChannelType :: string
  sdel_IsGroup :: bool
  sdel_Attachments :: "string list"
  sdel_GuildID :: string
  sdel_GuildName :: string

record SimpleEditedMessageData =
  sedt_MessageID :: string
  sedt_UserID :: string
  sedt_Username :: string
  sedt_BeforeContent :: string
  sedt_AfterContent :: string
  sedt_BeforeAttachments :: "string list"
  sedt_AfterAttachments :: "string list"
  sedt_EditedAt :: int
  sedt_ChannelID :: string
  sedt_ChannelName :: string
  sedt_ChannelType :: string
  sedt_IsGroup :: bool
  sedt_GuildID :: string
  sedt_GuildName :: string

record SimpleMentionData =
  smen_MessageID :: string
  smen_AuthorID :: string
  smen_AuthorName :: string
  smen_Content :: string
  smen_CreatedAt :: int
  smen_ChannelID :: string
  smen_ChannelName :: string
  smen_Attachments :: "string list"
  smen_ChannelType :: int
  smen_IsGroup :: bool
  smen_TargetID :: string
  smen_GuildID :: string
  smen_GuildName :: string

text \<open>The four collections the direct store writes to and reads from.\<close>

record SimpleDatabase =
  user_messages :: "SimpleMessageData list"
  deleted_messages :: "SimpleDeletedMessageData list"
  edited_messages :: "SimpleEditedMessageData list"
  mentions :: "SimpleMentionData list"

text \<open>
  \<open>isDuplicateError\<close>: the error is a \<open>mongo.WriteException\<close> and the loop over
  its write errors finds code 11000.
\<close>

fun has_code_11000 :: "write_error list \<Rightarrow> bool" where
  "has_code_11000 [] = False"
| "has_code_11000 (writeErr # rest) = (if Code writeErr = 11000 then True else has_code_11000 rest)"

fun isDuplicateError :: "mongo_error \<Rightarrow> bool" where
  "isDuplicateError (WriteException errs) = has_code_11000 errs"
| "isDuplicateError _ = False"

text \<open>
  \<open>InsertOne\<close> on the store side: the document is written exactly when no error
  comes back.
\<close>

definition InsertOne :: "'a list \<Rightarrow> 'a \<Rightarrow> mongo_error option \<Rightarrow> 'a list" where
  "InsertOne c doc r = (case r of None \<Rightarrow> c @ [doc] | Some _ \<Rightarrow> c)"

text \<open>
  What each direct \<open>Store\<close> function returns: the error, unless it is \<open>nil\<close> or a
  duplicate (it also logs the error it returns; the log line is left out).
\<close>

definition store_error :: "mongo_error option \<Rightarrow> mongo_error option" where
  "store_error r = (case r of None \<Rightarrow> None
                    | Some err \<Rightarrow> if \<not> isDuplicateError err then Some err else None)"

definition Simple_StoreMessage ::
  "SimpleDatabase \<Rightarrow> SimpleMessageData \<Rightarrow> mongo_error option \<Rightarrow> SimpleDatabase \<times> mongo_error option" where
  "Simple_StoreMessage d msg r = (d\<lparr>user_messages := InsertOne (user_messages d) msg r\<rparr>, store_error r)"

definition Simple_StoreDeletedMessage ::
  "SimpleDatabase \<Rightarrow> SimpleDeletedMessageData \<Rightarrow> mongo_error option
     \<Rightarrow> SimpleDatabase \<times> mongo_error option" where
  "Simple_StoreDeletedMessage d msg r =
     (d\<lparr>deleted_messages := InsertOne (deleted_messages d) msg r\<rparr>, store_error r)"

definition Simple_StoreEditedMessage ::
  "SimpleDatabase \<Rightarrow> SimpleEditedMessageData \<Rightarrow> mongo_error option
     \<Rightarrow> SimpleDatabase \<times> mongo_error option" where
  "Simple_StoreEditedMessage d msg r =
     (d\<lparr>edited_messages := InsertOne (edited_messages d) msg r\<rparr>, store_error r)"

definition Simple_StoreMention ::
  "SimpleDatabase \<Rightarrow> SimpleMentionData \<Rightarrow> mongo_error option \<Rightarrow> SimpleDatabase \<times> mongo_error option" where
  "Simple_StoreMention d mention r = (d\<lparr>mentions := InsertOne (mentions d) mention r\<rparr>, store_error r)"

section \<open>The event handlers of \<open>SimpleBot\<close>\<close>

text \<open>The parts of the Discord client's \<open>User\<close> and \<open>Message\<close> that the handlers read.\<close>

record User =
  user_ID :: string
  user_Username :: string
  user_Bot :: bool

record MessageAttachment =
  ProxyURL :: string

record MessageReference =
  ref_MessageID :: string

record Message =
  msg_ID :: string
  msg_Author :: "User option"
  msg_Content :: string
  msg_ChannelID :: string
  msg_Attachments :: "MessageAttachment list"
  msg_Mentions :: "User list"
  msg_MessageReference :: "MessageReference option"

record SimpleChannelInfo =
  ci_Name :: string
  ci_Type :: string
  ci_IsGroup :: bool
  ci_GuildID :: string
  ci_GuildName :: string

text \<open>
  What the handlers take from outside: the channel lookup \<open>getChannelInfo\<close>
  (cache and Discord session), the session's \<open>ChannelMessage\<close> lookup (\<open>None\<close> when
  it fails or there is no session) and the clock.
\<close>

record bot_env =
  getChannelInfo :: "string \<Rightarrow> SimpleChannelInfo option"
  ChannelMessage :: "string \<Rightarrow> string \<Rightarrow> Message option"
  now :: int

definition attachment_urls :: "MessageAttachment list \<Rightarrow> string list" where
  "attachment_urls atts = (if length atts > 0 then map ProxyURL atts else [])"

fun mentions_user :: "User list \<Rightarrow> string \<Rightarrow> bool" where
  "mentions_user [] userID = False"
| "mentions_user (user # rest) userID = (if user_ID user = userID then True else mentions_user rest userID)"

definition isUserMentioned :: "bot_env \<Rightarrow> string \<Rightarrow> Message \<Rightarrow> panic + bool" where
  "isUserMentioned env userID m =
     (if userID = [] then Inr False
      else if mentions_user (msg_Mentions m) userID then Inr True
      else case msg_MessageReference m of
             None \<Rightarrow> Inr False
           | Some ref \<Rightarrow>
               if ref_MessageID ref \<noteq> [] then
                 (case ChannelMessage env (msg_ChannelID m) (ref_MessageID ref) of
                    None \<Rightarrow> Inr False
                  | Some refMsg \<Rightarrow>
                      (case msg_Author refMsg of
                         None \<Rightarrow> Inl NilPointerDereference
                       | Some author \<Rightarrow> Inr (user_ID author = userID)))
               else Inr False)"

definition mention_channel_type :: "string \<Rightarrow> int" where
  "mention_channel_type t = (if t = ''DMs'' then 1 else if t = ''group'' then 3 else 0)"

definition processMention ::
  "bot_env \<Rightarrow> string \<Rightarrow> mongo_error option \<Rightarrow> Message \<Rightarrow> User \<Rightarrow> SimpleDatabase \<Rightarrow> SimpleDatabase" where
  "processMention env userID r m author d =
     (if userID = [] then d
      else
        let mentionData = \<lparr>smen_MessageID = msg_ID m, smen_AuthorID = user_ID author,
               smen_AuthorName = user_Username author, smen_Content = msg_Content m,
               smen_CreatedAt = now env, smen_ChannelID = msg_ChannelID m,
               smen_ChannelName = [], smen_Attachments = [], smen_ChannelType = 0,
               smen_IsGroup = False, smen_TargetID = userID, smen_GuildID = [],
               smen_GuildName = []\<rparr>;
            mentionData = (case getChannelInfo env (msg_ChannelID m) of
               None \<Rightarrow> mentionData
             | Some channelInfo \<Rightarrow>
                 mentionData\<lparr>smen_ChannelName := ci_Name channelInfo,
                               smen_GuildID := ci_GuildID channelInfo,
                               smen_GuildName := ci_GuildName channelInfo,
                               smen_IsGroup := ci_IsGroup channelInfo,
                               smen_ChannelType := mention_channel_type (ci_Type channelInfo)\<rparr>);
            mentionData = mentionData\<lparr>smen_Attachments := attachment_urls (msg_Attachments m)\<rparr>
        in fst (Simple_StoreMention d mentionData r))"

definition processMessage ::
  "bot_env \<Rightarrow> string \<Rightarrow> mongo_error option \<Rightarrow> mongo_error option \<Rightarrow> Message \<Rightarrow> SimpleDatabase
     \<Rightarrow> panic + SimpleDatabase" where
  "processMessage env userID r1 r2 m d =
     (case msg_Author m of
        None \<Rightarrow> Inl NilPointerDereference
      | Some author \<Rightarrow>
          if user_Bot author then Inr d
          else if userID = [] then Inr d
          else
            let msgData = \<lparr>smsg_ID = msg_ID m, smsg_MessageID = msg_ID m,
                   smsg_UserID = user_ID author, smsg_Username = user_Username author,
                   smsg_Content = msg_Content m, smsg_CreatedAt = now env,
                   smsg_ChannelID = msg_ChannelID m, smsg_ChannelName = [],
                   smsg_ChannelType = [], smsg_IsGroup = False, smsg_Attachments = [],
                   smsg_InstanceID = userID, smsg_IsSelf = (user_ID author = userID),
                   smsg_GuildID = [], smsg_GuildName = []\<rparr>;
                msgData = (case getChannelInfo env (msg_ChannelID m) of
                   None \<Rightarrow> msgData
                 | Some channelInfo \<Rightarrow>
                     msgData\<lparr>smsg_ChannelName := ci_Name channelInfo,
                               smsg_ChannelType := ci_Type channelInfo,
                               smsg_IsGroup := ci_IsGroup channelInfo,
                               smsg_GuildID := ci_GuildID channelInfo,
                               smsg_GuildName := ci_GuildName channelInfo\<rparr>);
                msgData = msgData\<lparr>smsg_Attachments := attachment_urls (msg_Attachments m)\<rparr>;
                d1 = fst (Simple_StoreMessage d msgData r1)
            in (case isUserMentioned env userID m of
                  Inl e \<Rightarrow> Inl e
                | Inr mentioned \<Rightarrow>
                    if mentioned \<and> user_ID author \<noteq> userID
                    then Inr (processMention env userID r2 m author d1)
                    else Inr d1))"

definition processDeletedMessage ::
  "bot_env \<Rightarrow> string \<Rightarrow> mongo_error option \<Rightarrow> Message option \<Rightarrow> SimpleDatabase \<Rightarrow> SimpleDatabase" where
  "processDeletedMessage env userID r mo d =
     (case mo of
        None \<Rightarrow> d
      | Some m \<Rightarrow>
          (case msg_Author m of
             None \<Rightarrow> d
           | Some author \<Rightarrow>
               if user_Bot author then d
               else if userID = [] \<or> user_ID author = userID then d
               else
                 let msgData = \<lparr>sdel_MessageID = msg_ID m, sdel_UserID = user_ID author,
                        sdel_Username = user_Username author, sdel_Content = msg_Content m,
                        sdel_DeletedAt = now env, sdel_ChannelID = msg_ChannelID m,
                        sdel_ChannelName = [], sdel_ChannelType = [], sdel_IsGroup = False,
                        sdel_Attachments = [], sdel_GuildID = [], sdel_GuildName = []\<rparr>;
                     msgData = (case getChannelInfo env (msg_ChannelID m) of
                        None \<Rightarrow> msgData
                      | Some channelInfo \<Rightarrow>
                          msgData\<lparr>sdel_ChannelName := ci_Name channelInfo,
                                    sdel_ChannelType := ci_Type channelInfo,
                                    sdel_IsGroup := ci_IsGroup channelInfo,
                                    sdel_GuildID := ci_GuildID channelInfo,
                                    sdel_GuildName := ci_GuildName channelInfo\<rparr>);
                     msgData = msgData\<lparr>sdel_Attachments := attachment_urls (msg_Attachments m)\<rparr>
                 in fst (Simple_StoreDeletedMessage d msgData r)))"

definition processEditedMessage ::
  "bot_env \<Rightarrow> string \<Rightarrow> mongo_error option \<Rightarrow> Message option \<Rightarrow> Message option \<Rightarrow> SimpleDatabase
     \<Rightarrow> SimpleDatabase" where
  "processEditedMessage env userID r bo ao d =
     (case (bo, ao) of
        (Some before, Some after) \<Rightarrow>
          (case msg_Author after of
             None \<Rightarrow> d
           | Some author \<Rightarrow>
               if user_Bot author then d
               else if userID = [] \<or> user_ID author = userID then d
               else if msg_Content before = msg_Content after then d
               else
                 let msgData = \<lparr>sedt_MessageID = msg_ID after, sedt_UserID = user_ID author,
                        sedt_Username = user_Username author,
                        sedt_BeforeContent = msg_Content before,
                        sedt_AfterContent = msg_Content after,
                        sedt_BeforeAttachments = [], sedt_AfterAttachments = [],
                        sedt_EditedAt = now env, sedt_ChannelID = msg_ChannelID after,
                        sedt_ChannelName = [], sedt_ChannelType = [], sedt_IsGroup = False,
                        sedt_GuildID = [], sedt_GuildName = []\<rparr>;
                     msgData = (case getChannelInfo env (msg_ChannelID after) of
                        None \<Rightarrow> msgData
                      | Some channelInfo \<Rightarrow>
                          msgData\<lparr>sedt_ChannelName := ci_Name channelInfo,
                                    sedt_ChannelType := ci_Type channelInfo,
                                    sedt_IsGroup := ci_IsGroup channelInfo,
                                    sedt_GuildID := ci_GuildID channelInfo,
                                    sedt_GuildName := ci_GuildName channelInfo\<rparr>);
                     msgData = msgData\<lparr>sedt_BeforeAttachments := attachment_urls (msg_Attachments before),
                                        sedt_AfterAttachments := attachment_urls (msg_Attachments after)\<rparr>
                 in fst (Simple_StoreEditedMessage d msgData r))
      | _ \<Rightarrow> d)"

text \<open>
  Concrete inputs for the handlers: an environment whose lookups find nothing,
  an empty store, a deletion of a message written by account 42 and a message
  written by a bot account.
\<close>

definition quiet_env :: bot_env where
  "quiet_env = \<lparr>getChannelInfo = (\<lambda>_. None), ChannelMessage = (\<lambda>_ _. None), now = 1700000000\<rparr>"

definition empty_store :: SimpleDatabase where
  "empty_store = \<lparr>user_messages = [], deleted_messages = [], edited_messages = [], mentions = []\<rparr>"

definition own_message :: Message where
  "own_message =
     \<lparr>msg_ID = ''900'',
      msg_Author = Some \<lparr>user_ID = ''42'', user_Username = ''me'', user_Bot = False\<rparr>,
      msg_Content = ''hello'', msg_ChannelID = ''7'', msg_Attachments = [],
      msg_Mentions = [], msg_MessageReference = None\<rparr>"

definition bot_message :: Message where
  "bot_message =
     \<lparr>msg_ID = ''901'',
      msg_Author = Some \<lparr>user_ID = ''77'', user_Username = ''helper'', user_Bot = True\<rparr>,
      msg_Content = ''beep'', msg_ChannelID = ''7'', msg_Attachments = [],
      msg_Mentions = [], msg_MessageReference = None\<rparr>"

section \<open>The read path\<close>

text \<open>The record types of the batched \<open>Database\<close> that its queries decode into.\<close>

record ReplyInfo =
  reply_UserID :: string
  reply_Username :: string
  reply_Content :: string
  reply_Attachments :: "string list"
  reply_IsSnapshot :: bool

record MessageSnapshot =
  snap_ID :: string
  snap_Content :: string
  snap_CreatedAt :: int
  snap_Attachments :: "string list"
  snap_AuthorID :: "string option"
  snap_AuthorName :: "string option"

record DeletedMessageData =
  del_MessageID :: string
  del_UserID :: string
  del_Username :: "string option"
  del_Content :: string
  del_DeletedAt :: int
  del_ChannelID :: string
  del_ChannelName :: "string option"
  del_ChannelType :: "string option"
  del_IsGroup :: bool
  del_Attachments :: "string list"
  del_GuildID :: "string option"
  del_GuildName :: "string option"
  del_ReplyTo :: "ReplyInfo option"
  del_Snapshots :: "MessageSnapshot list"

record EditedMessageData =
  edt_MessageID :: string
  edt_UserID :: string
  edt_Username :: "string option"
  edt_BeforeContent :: string
  edt_AfterContent :: string
  edt_BeforeAttachments :: "string list"
  edt_AfterAttachments :: "string list"
  edt_EditedAt :: int
  edt_ChannelID :: string
  edt_ChannelName :: "string option"
  edt_ChannelType :: "string option"
  edt_IsGroup :: bool
  edt_GuildID :: "string option"
  edt_GuildName :: "string option"
  edt_ReplyTo :: "ReplyInfo option"

record MentionData =
  men_MessageID :: string
  men_AuthorID :: string
  men_AuthorName :: string
  men_Content :: string
  men_CreatedAt :: int
  men_ChannelID :: string
  men_ChannelName :: "string option"
  men_Attachments :: "string list"
  men_ChannelType :: int
  men_IsGroup :: bool
  men_TargetID :: string
  men_GuildID :: "string option"
  men_GuildName :: "string option"
  men_ReplyTo :: "ReplyInfo option"















text \<open>
  Concrete inputs for the queries: deleted-message documents that differ in
  message id and deletion time, an environment in which every document matches
  and decodes, and the two stores after two deletions (at times 100 and 200) have
  been written.
\<close>

definition deleted_doc :: "string \<Rightarrow> int \<Rightarrow> DeletedMessageData" where
  "deleted_doc mid t =
     \<lparr>del_MessageID = mid, del_UserID = ''43'', del_Username = None, del_Content = ''bye'',
      del_DeletedAt = t, del_ChannelID = ''7'', del_ChannelName = None, del_ChannelType = None,
      del_IsGroup = False, del_Attachments = [], del_GuildID = None, del_GuildName = None,
      del_ReplyTo = None, del_Snapshots = []\<rparr>"

definition simple_deleted_doc :: "string \<Rightarrow> int \<Rightarrow> SimpleDeletedMessageData" where
  "simple_deleted_doc mid t =
     \<lparr>sdel_MessageID = mid, sdel_UserID = ''43'', sdel_Username = ''you'', sdel_Content = ''bye'',
      sdel_DeletedAt = t, sdel_ChannelID = ''7'', sdel_ChannelName = [], sdel_ChannelType = [],
      sdel_IsGroup = False, sdel_Attachments = [], sdel_GuildID = [], sdel_GuildName = []\<rparr>"


definition two_deleted_schedule :: "DeletedMessageData event list" where
  "two_deleted_schedule =
     [Store Deleted (deleted_doc ''1'' 100), Store Deleted (deleted_doc ''2'' 200),
      Proc Deleted SelDefault None, Proc Deleted InnerRecv None,
      Proc Deleted SelDefault None, Proc Deleted InnerRecv None,
      TickerFire Deleted, Proc Deleted SelTick None]"

definition two_deleted :: "DeletedMessageData database" where
  "two_deleted =
     New\<lparr>pipes := (pipes New)(Deleted := (new_pipe 1000)
           \<lparr>coll := [deleted_doc ''1'' 100, deleted_doc ''2'' 200],
            bulk_writes := [[deleted_doc ''1'' 100, deleted_doc ''2'' 200]],
            logs := [Debugf_inserted 2 ''deleted_messages'']\<rparr>)\<rparr>"


section \<open>Properties of the pipeline\<close>

subsection \<open>Channel occupancy\<close>

lemma store_unfold:
  "store k d msg =
     (case try_send (pipes d k) msg of
        Inl e \<Rightarrow> Inl e
      | Inr (p, sent) \<Rightarrow>
          Inr (d\<lparr>pipes := (pipes d)(k :=
                 (if sent then p else p\<lparr>logs := logs p @ [Warn (full_warning k)]\<rparr>))\<rparr>, ()))"
  by (cases k)
     (simp_all add: StoreMessage_def StoreDeletedMessage_def StoreEditedMessage_def
        StoreMention_def split: sum.splits)

lemma try_send_ok:
  "try_send p x = Inr (p', b) \<Longrightarrow> chan_ok n p \<Longrightarrow> chan_ok n p'"
  by (auto simp: try_send_def chan_ok_def split: if_splits)

lemma flushBatch_fields [simp]:
  "buf (flushBatch n b r p) = buf p" "cap (flushBatch n b r p) = cap p"
  "chan_closed (flushBatch n b r p) = chan_closed p" "pc (flushBatch n b r p) = pc p"
  "batch (flushBatch n b r p) = batch p" "tickC (flushBatch n b r p) = tickC p"
  by (simp_all add: flushBatch_def)

lemma processBatch_chan:
  assumes "processBatch bs cn nm c r p = Some p'"
  shows "cap p' = cap p" and "length (buf p') \<le> length (buf p)"
    and "chan_closed p' = chan_closed p"
  using assms
  by (auto simp: processBatch_def Let_def split: pc.splits choice.splits if_splits list.splits)

lemma processBatch_ok:
  "processBatch bs cn nm c r p = Some p' \<Longrightarrow> chan_ok n p \<Longrightarrow> chan_ok n p'"
  using processBatch_chan(1,2)[of bs cn nm c r p p'] by (simp add: chan_ok_def)

lemma chan_ok_New: "chan_ok (chan_capacity k) (pipes New k)"
  by (simp add: chan_ok_def New_def new_pipe_def)

lemma store_pipes:
  assumes "store k d x = Inr (d', u)"
  obtains p sent where "try_send (pipes d k) x = Inr (p, sent)"
    and "pipes d' = (pipes d)(k := (if sent then p else p\<lparr>logs := logs p @ [Warn (full_warning k)]\<rparr>))"
  using assms by (auto simp: store_unfold split: sum.splits prod.splits)

lemma store_ok:
  assumes "store k d x = Inr (d', u)" and "chan_ok n (pipes d j)"
  shows "chan_ok n (pipes d' j)"
proof -
  from assms(1) obtain p sent where ts: "try_send (pipes d k) x = Inr (p, sent)"
    and d': "pipes d' = (pipes d)(k := (if sent then p else p\<lparr>logs := logs p @ [Warn (full_warning k)]\<rparr>))"
    by (rule store_pipes)
  show ?thesis
  proof (cases "j = k")
    case True
    with try_send_ok[OF ts] assms(2) have "chan_ok n p" by simp
    with True d' show ?thesis by (simp add: chan_ok_def)
  next
    case False
    with d' assms(2) show ?thesis by simp
  qed
qed

lemma proc_step_pipes:
  assumes "proc_step k c r d = Some d'"
  obtains p where
    "processBatch (batchSize d) (ctx_done d) (collectionName k) c r (pipes d k) = Some p"
    and "d' = d\<lparr>pipes := (pipes d)(k := p), wg := (if pc p = Exited then wg d - 1 else wg d)\<rparr>"
  using assms by (auto simp: proc_step_def split: option.splits)

lemma proc_step_ok:
  assumes "proc_step k c r d = Some d'" and "chan_ok n (pipes d j)"
  shows "chan_ok n (pipes d' j)"
proof -
  from assms(1) obtain p where
    p: "processBatch (batchSize d) (ctx_done d) (collectionName k) c r (pipes d k) = Some p"
    and d': "d' = d\<lparr>pipes := (pipes d)(k := p), wg := (if pc p = Exited then wg d - 1 else wg d)\<rparr>"
    by (rule proc_step_pipes)
  show ?thesis
  proof (cases "j = k")
    case True
    with processBatch_ok[OF p] assms(2) d' show ?thesis by simp
  next
    case False
    with d' assms(2) show ?thesis by simp
  qed
qed

lemma step_ok:
  assumes "step e d = Some d'" and "chan_ok n (pipes d j)"
  shows "chan_ok n (pipes d' j)"
proof (cases e)
  case (Store k x)
  with assms show ?thesis by (auto split: sum.splits dest: store_ok)
next
  case (TickerFire k)
  with assms show ?thesis by (auto simp: chan_ok_def split: if_splits)
next
  case (Proc k c r)
  with assms show ?thesis by (auto dest: proc_step_ok)
next
  case CloseBegin
  with assms show ?thesis by (auto simp: chan_ok_def Close_begin_def split: if_splits)
next
  case CloseEnd
  with assms show ?thesis by (auto simp: chan_ok_def Close_end_def split: if_splits)
qed

lemma run_ok:
  "run es d = Some d' \<Longrightarrow> chan_ok n (pipes d j) \<Longrightarrow> chan_ok n (pipes d' j)"
  by (induction es arbitrary: d) (auto split: option.splits dest: step_ok)

lemma store_when_full:
  assumes "\<not> chan_closed (pipes d k)" and "cap (pipes d k) \<le> length (buf (pipes d k))"
  shows "store k d x =
           Inr (d\<lparr>pipes := (pipes d)(k := (pipes d k)
                  \<lparr>logs := logs (pipes d k) @ [Warn (full_warning k)]\<rparr>)\<rparr>, ())"
  using assms by (simp add: store_unfold try_send_def)

lemma store_when_room:
  assumes "\<not> chan_closed (pipes d k)" and "length (buf (pipes d k)) < cap (pipes d k)"
  shows "store k d x =
           Inr (d\<lparr>pipes := (pipes d)(k := (pipes d k)\<lparr>buf := buf (pipes d k) @ [x]\<rparr>)\<rparr>, ())"
  using assms by (simp add: store_unfold try_send_def)

lemma run_stores:
  assumes "\<not> chan_closed (pipes d k)"
    and "length (buf (pipes d k)) + length xs \<le> cap (pipes d k)"
  shows "run (map (Store k) xs) d =
           Some (d\<lparr>pipes := (pipes d)(k := (pipes d k)\<lparr>buf := buf (pipes d k) @ xs\<rparr>)\<rparr>)"
  using assms
proof (induction xs arbitrary: d)
  case Nil
  then show ?case by simp
next
  case (Cons x xs)
  let ?d1 = "d\<lparr>pipes := (pipes d)(k := (pipes d k)\<lparr>buf := buf (pipes d k) @ [x]\<rparr>)\<rparr>"
  from Cons.prems have st: "store k d x = Inr (?d1, ())"
    by (intro store_when_room) auto
  from Cons.prems have "run (map (Store k) xs) ?d1 =
      Some (?d1\<lparr>pipes := (pipes ?d1)(k := (pipes ?d1 k)\<lparr>buf := buf (pipes ?d1 k) @ xs\<rparr>)\<rparr>)"
    by (intro Cons.IH) auto
  with st show ?case by (simp add: fun_eq_iff)
qed

lemma mention_queue_full_reachable:
  "run (map (Store Mention) (replicate 500 0)) New = Some mention_queue_full"
proof -
  have "run (map (Store Mention) (replicate 500 (0::nat))) New =
      Some (New\<lparr>pipes := (pipes New)(Mention :=
         (pipes New Mention)\<lparr>buf := buf (pipes New Mention) @ replicate 500 0\<rparr>)\<rparr>)"
    by (rule run_stores) (simp_all add: New_def new_pipe_def)
  then show ?thesis
    by (simp add: mention_queue_full_def New_def new_pipe_def)
qed

text \<open>
  C4. In every state the database reaches from \<open>New\<close>, whatever producers, tickers,
  goroutines and \<open>Close\<close> do, each channel holds at most its capacity, which stays
  the one \<open>New\<close> gave it (message 2000, deleted 1000, edited 1000, mention 500).
  A \<open>Store\<close> call on a full channel takes the \<open>default\<close> case: the channel and
  everything else stay as they were, only the warning is logged.
\<close>

theorem queue_occupancy_bounded:
  "(run es New = Some d \<longrightarrow>
      length (buf (pipes d k)) \<le> chan_capacity k \<and> cap (pipes d k) = chan_capacity k)
   \<and> (\<not> chan_closed (pipes d0 k) \<longrightarrow> cap (pipes d0 k) \<le> length (buf (pipes d0 k)) \<longrightarrow>
        store k d0 x =
          Inr (d0\<lparr>pipes := (pipes d0)(k := (pipes d0 k)
                 \<lparr>logs := logs (pipes d0 k) @ [Warn (full_warning k)]\<rparr>)\<rparr>, ()))"
proof (intro conjI impI)
  assume "run es New = Some d"
  then have "chan_ok (chan_capacity k) (pipes d k)" by (rule run_ok) (rule chan_ok_New)
  then show "length (buf (pipes d k)) \<le> chan_capacity k" "cap (pipes d k) = chan_capacity k"
    by (auto simp: chan_ok_def)
next
  assume "\<not> chan_closed (pipes d0 k)" "cap (pipes d0 k) \<le> length (buf (pipes d0 k))"
  then show "store k d0 x =
          Inr (d0\<lparr>pipes := (pipes d0)(k := (pipes d0 k)
                 \<lparr>logs := logs (pipes d0 k) @ [Warn (full_warning k)]\<rparr>)\<rparr>, ())"
    by (rule store_when_full)
qed

theorem queue_occupancy_bounded_witness:
  "run (map (Store Mention) (replicate 500 0)) New = Some mention_queue_full
   \<and> length (buf (pipes mention_queue_full Mention)) \<le> chan_capacity Mention
   \<and> cap (pipes mention_queue_full Mention) = chan_capacity Mention
   \<and> \<not> chan_closed (pipes mention_queue_full Mention)
   \<and> cap (pipes mention_queue_full Mention) \<le> length (buf (pipes mention_queue_full Mention))
   \<and> store Mention mention_queue_full 7 =
       Inr (mention_queue_full\<lparr>pipes := (pipes mention_queue_full)(Mention :=
              (pipes mention_queue_full Mention)\<lparr>logs := [Warn (full_warning Mention)]\<rparr>)\<rparr>, ())"
proof -
  have r: "run (map (Store Mention) (replicate 500 0)) New = Some mention_queue_full"
    by (rule mention_queue_full_reachable)
  have o: "\<not> chan_closed (pipes mention_queue_full Mention)"
    by (simp add: mention_queue_full_def new_pipe_def)
  have f: "cap (pipes mention_queue_full Mention) \<le> length (buf (pipes mention_queue_full Mention))"
    by (simp add: mention_queue_full_def new_pipe_def)
  have l: "logs (pipes mention_queue_full Mention) = []"
    by (simp add: mention_queue_full_def new_pipe_def)
  from queue_occupancy_bounded
    [of "map (Store Mention) (replicate 500 0)" mention_queue_full Mention mention_queue_full 7]
    r o f l
  show ?thesis by simp
qed

subsection \<open>Enqueue\<close>

text \<open>
  C3 as stated fails: the \<open>Store\<close> functions have no result, so a caller gets
  back the same (unit) value from a mention queue holding its 500 records, where
  the record is dropped, as from the empty queue of \<open>New\<close>, where it is queued.
\<close>

theorem store_result_counterexample:
  "cap (pipes mention_queue_full Mention) \<le> length (buf (pipes mention_queue_full Mention))
   \<and> length (buf (pipes (New :: nat database) Mention)) < cap (pipes (New :: nat database) Mention)
   \<and> result_of (StoreMention mention_queue_full 7) = Inr ()
   \<and> result_of (StoreMention New (7::nat)) = Inr ()"
  by (simp add: mention_queue_full_def New_def new_pipe_def StoreMention_def try_send_def
      result_of_def)

text \<open>
  C3, amended. On a channel that \<open>Close\<close> has not closed, each \<open>Store\<close> function
  returns at once (it is one \<open>select\<close> with a \<open>default\<close> case) and returns no
  value: with room in the buffer the record is appended to the channel, at
  capacity the record is dropped, the channel is left as it was and a warning is
  logged.
\<close>

theorem store_never_blocks:
  assumes "\<not> chan_closed (pipes d k)"
  shows "store k d x =
           Inr (if length (buf (pipes d k)) < cap (pipes d k)
                then d\<lparr>pipes := (pipes d)(k := (pipes d k)\<lparr>buf := buf (pipes d k) @ [x]\<rparr>)\<rparr>
                else d\<lparr>pipes := (pipes d)(k := (pipes d k)
                        \<lparr>logs := logs (pipes d k) @ [Warn (full_warning k)]\<rparr>)\<rparr>, ())"
  using assms by (simp add: store_unfold try_send_def)

theorem store_never_blocks_witness:
  "\<not> chan_closed (pipes (New :: nat database) Deleted)
   \<and> store Deleted New (3::nat) =
       Inr (New\<lparr>pipes := (pipes New)(Deleted := (pipes New Deleted)\<lparr>buf := [3]\<rparr>)\<rparr>, ())
   \<and> \<not> chan_closed (pipes mention_queue_full Mention)
   \<and> store Mention mention_queue_full 3 =
       Inr (mention_queue_full\<lparr>pipes := (pipes mention_queue_full)(Mention :=
              (pipes mention_queue_full Mention)\<lparr>logs := [Warn (full_warning Mention)]\<rparr>)\<rparr>, ())"
proof -
  have a: "\<not> chan_closed (pipes (New :: nat database) Deleted)"
    by (simp add: New_def new_pipe_def)
  have b: "\<not> chan_closed (pipes mention_queue_full Mention)"
    by (simp add: mention_queue_full_def new_pipe_def)
  have c: "length (buf (pipes (New :: nat database) Deleted)) < cap (pipes (New :: nat database) Deleted)"
    "buf (pipes (New :: nat database) Deleted) = []"
    by (simp_all add: New_def new_pipe_def)
  have e: "\<not> length (buf (pipes mention_queue_full Mention)) < cap (pipes mention_queue_full Mention)"
    "logs (pipes mention_queue_full Mention) = []"
    by (simp_all add: mention_queue_full_def new_pipe_def)
  from store_never_blocks[OF a, of 3] store_never_blocks[OF b, of 3] a b c e
  show ?thesis by simp
qed

subsection \<open>Flush triggers\<close>










lemma run_append:
  "run (es @ fs) d = (case run es d of None \<Rightarrow> None | Some d' \<Rightarrow> run fs d')"
  by (induction es arbitrary: d) (auto split: option.splits)








subsection \<open>Classification of rejections\<close>

lemma fold_count:
  "fold (\<lambda>writeErr n. if Code writeErr \<noteq> 11000 then n + 1 else n) errs k =
     k + length (filter (\<lambda>e. Code e \<noteq> 11000) errs)"
  by (induction errs arbitrary: k) auto

lemma nonDuplicates_count:
  "nonDuplicates errs = length (filter (\<lambda>e. Code e \<noteq> 11000) errs)"
  by (simp add: nonDuplicates_def fold_count)

lemma has_code_11000_iff: "has_code_11000 errs = (\<exists>e \<in> set errs. Code e = 11000)"
  by (induction errs) auto

lemma processBatch_no_requeue:
  assumes "processBatch bs cn nm c r p = Some p'"
  shows "\<exists>n. buf p' = drop n (buf p)"
proof -
  from assms have "buf p' = buf p \<or> buf p' = tl (buf p)"
    by (auto simp: processBatch_def Let_def split: pc.splits choice.splits if_splits list.splits)
  then show ?thesis
  proof
    assume "buf p' = buf p"
    then have "buf p' = drop 0 (buf p)" by simp
    then show ?thesis ..
  next
    assume "buf p' = tl (buf p)"
    then have "buf p' = drop 1 (buf p)" by (simp add: drop_Suc)
    then show ?thesis ..
  qed
qed

lemma processBatch_one_write:
  assumes "processBatch bs cn nm c r p = Some p'"
  shows "bulk_writes p' = bulk_writes p
     \<or> (\<exists>b. bulk_writes p' = bulk_writes p @ [b] \<and> (batch p' = [] \<or> pc p' = Exited))"
  using assms
  by (auto simp: processBatch_def Let_def flushBatch_def
      split: pc.splits choice.splits if_splits list.splits)

text \<open>
  C2. \<open>flushBatch\<close> sends the batch to the store once, and of the write errors of
  a bulk write exception it counts exactly those whose code is not 11000
  (duplicate key): when every rejection is a duplicate nothing is logged, otherwise
  one error line carries the number of the others. Whatever the store answers,
  a move of \<open>processBatch\<close> puts nothing back into the channel, calls the store at
  most once, and after a call the batch is empty or the goroutine has returned.
  On the direct path \<open>isDuplicateError\<close> recognises code 11000 in a write
  exception; the \<open>Store\<close> function then returns \<open>nil\<close>, and returns the error
  otherwise, writing nothing in either case.
\<close>

theorem duplicate_rejections_are_not_errors:
  "nonDuplicates errs = length (filter (\<lambda>e. Code e \<noteq> 11000) errs)
   \<and> (b \<noteq> [] \<longrightarrow>
        flushBatch nm b (Some (BulkWriteException errs)) p =
          p\<lparr>coll := InsertMany (coll p) b (Some (BulkWriteException errs)),
            bulk_writes := bulk_writes p @ [b],
            logs := logs p @
              (if \<forall>e \<in> set errs. Code e = 11000 then []
               else [Errorf_bulk nm (length (filter (\<lambda>e. Code e \<noteq> 11000) errs))])\<rparr>)
   \<and> (processBatch bs cn nm c r p = Some p' \<longrightarrow>
        (\<exists>n. buf p' = drop n (buf p))
        \<and> (bulk_writes p' = bulk_writes p
           \<or> (\<exists>b. bulk_writes p' = bulk_writes p @ [b] \<and> (batch p' = [] \<or> pc p' = Exited))))
   \<and> isDuplicateError (WriteException errs) = (\<exists>e \<in> set errs. Code e = 11000)
   \<and> (isDuplicateError err \<longrightarrow> Simple_StoreDeletedMessage sd doc (Some err) = (sd, None))
   \<and> (\<not> isDuplicateError err \<longrightarrow> Simple_StoreDeletedMessage sd doc (Some err) = (sd, Some err))"
proof -
  have "flushBatch nm b (Some (BulkWriteException errs)) p =
          p\<lparr>coll := InsertMany (coll p) b (Some (BulkWriteException errs)),
            bulk_writes := bulk_writes p @ [b],
            logs := logs p @
              (if \<forall>e \<in> set errs. Code e = 11000 then []
               else [Errorf_bulk nm (length (filter (\<lambda>e. Code e \<noteq> 11000) errs))])\<rparr>"
    if "b \<noteq> []"
  proof -
    have "(length (filter (\<lambda>e. Code e \<noteq> 11000) errs) > 0) = (\<not> (\<forall>e \<in> set errs. Code e = 11000))"
      by (auto simp: filter_empty_conv)
    with that show ?thesis
      by (simp add: flushBatch_def flush_logs_def nonDuplicates_count)
  qed
  moreover have "(\<exists>n. buf p' = drop n (buf p))
        \<and> (bulk_writes p' = bulk_writes p
           \<or> (\<exists>b. bulk_writes p' = bulk_writes p @ [b] \<and> (batch p' = [] \<or> pc p' = Exited)))"
    if "processBatch bs cn nm c r p = Some p'"
    using processBatch_no_requeue[OF that] processBatch_one_write[OF that] by blast
  moreover have "Simple_StoreDeletedMessage sd doc (Some err) = (sd, None)" if "isDuplicateError err"
    using that by (simp add: Simple_StoreDeletedMessage_def InsertOne_def store_error_def)
  moreover have "Simple_StoreDeletedMessage sd doc (Some err) = (sd, Some err)"
    if "\<not> isDuplicateError err"
    using that by (simp add: Simple_StoreDeletedMessage_def InsertOne_def store_error_def)
  ultimately show ?thesis
    by (simp add: nonDuplicates_count has_code_11000_iff)
qed

theorem duplicate_rejections_are_not_errors_witness:
  "nonDuplicates [WriteError 0 11000, WriteError 2 121] = 1
   \<and> [10, 20, 30 :: nat] \<noteq> []
   \<and> flushBatch ''mentions'' [10, 20, 30 :: nat]
        (Some (BulkWriteException [WriteError 0 11000, WriteError 2 121]))
        ((new_pipe 500)\<lparr>batch := [10, 20, 30], tickC := True\<rparr>) =
       (new_pipe 500)\<lparr>batch := [10, 20, 30], tickC := True, coll := [20],
                       bulk_writes := [[10, 20, 30]], logs := [Errorf_bulk ''mentions'' 1]\<rparr>
   \<and> processBatch 1000 False ''mentions'' SelTick
        (Some (BulkWriteException [WriteError 0 11000, WriteError 2 121]))
        ((new_pipe 500)\<lparr>batch := [10, 20, 30 :: nat], tickC := True\<rparr>) =
       Some ((new_pipe 500)\<lparr>coll := [20], bulk_writes := [[10, 20, 30]],
                       logs := [Errorf_bulk ''mentions'' 1]\<rparr>)
   \<and> isDuplicateError (WriteException [WriteError 0 11000])
   \<and> Simple_StoreDeletedMessage \<lparr>user_messages = [], deleted_messages = [], edited_messages = [],
         mentions = []\<rparr> (simple_deleted_doc ''1'' 100) (Some (WriteException [WriteError 0 11000])) =
       (\<lparr>user_messages = [], deleted_messages = [], edited_messages = [], mentions = []\<rparr>, None)
   \<and> \<not> isDuplicateError (OtherError ''socket timeout'')
   \<and> Simple_StoreDeletedMessage \<lparr>user_messages = [], deleted_messages = [], edited_messages = [],
         mentions = []\<rparr> (simple_deleted_doc ''1'' 100) (Some (OtherError ''socket timeout'')) =
       (\<lparr>user_messages = [], deleted_messages = [], edited_messages = [], mentions = []\<rparr>,
        Some (OtherError ''socket timeout''))"
proof -
  let ?errs = "[WriteError 0 11000, WriteError 2 121]"
  let ?b = "[10, 20, 30 :: nat]"
  let ?p = "(new_pipe 500)\<lparr>batch := ?b, tickC := True\<rparr>"
  let ?p' = "(new_pipe 500)\<lparr>coll := [20 :: nat], bulk_writes := [?b],
                       logs := [Errorf_bulk ''mentions'' 1]\<rparr>"
  let ?sd = "\<lparr>user_messages = [], deleted_messages = [], edited_messages = [], mentions = []\<rparr>"
  have mv: "processBatch 1000 False ''mentions'' SelTick (Some (BulkWriteException ?errs)) ?p =
       Some ?p'"
    by (simp add: processBatch_def flushBatch_def flush_logs_def nonDuplicates_def InsertMany_def
        new_pipe_def upt_rec)
  have im: "InsertMany (coll ?p) ?b (Some (BulkWriteException ?errs)) = [20]"
    by (simp add: InsertMany_def upt_rec new_pipe_def)
  have ne: "?b \<noteq> []" by simp
  have d1: "isDuplicateError (WriteException [WriteError 0 11000])" by simp
  have d2: "\<not> isDuplicateError (OtherError ''socket timeout'')" by simp
  note T = duplicate_rejections_are_not_errors
         [where errs = ?errs and b = ?b and nm = "''mentions''" and p = ?p
            and bs = 1000 and cn = False and c = SelTick
            and r = "Some (BulkWriteException ?errs)" and p' = ?p'
            and err = "WriteException [WriteError 0 11000]" and sd = ?sd and doc = "simple_deleted_doc ''1'' 100"]
  note U = duplicate_rejections_are_not_errors
         [where errs = ?errs and b = ?b and nm = "''mentions''" and p = ?p
            and bs = 1000 and cn = False and c = SelTick
            and r = "Some (BulkWriteException ?errs)" and p' = ?p'
            and err = "OtherError ''socket timeout''" and sd = ?sd and doc = "simple_deleted_doc ''1'' 100"]
  from T have "nonDuplicates ?errs = length (filter (\<lambda>e. Code e \<noteq> 11000) ?errs)"
    by (rule conjunct1)
  then have a: "nonDuplicates ?errs = 1" by simp
  from T[THEN conjunct2, THEN conjunct1, rule_format, OF ne]
  have b: "flushBatch ''mentions'' ?b (Some (BulkWriteException ?errs)) ?p =
       (new_pipe 500)\<lparr>batch := ?b, tickC := True, coll := [20],
                       bulk_writes := [?b], logs := [Errorf_bulk ''mentions'' 1]\<rparr>"
    unfolding im by (simp add: new_pipe_def)
  from T[THEN conjunct2, THEN conjunct2, THEN conjunct2, THEN conjunct2, THEN conjunct1,
         rule_format, OF d1]
  have c: "Simple_StoreDeletedMessage ?sd (simple_deleted_doc ''1'' 100) (Some (WriteException [WriteError 0 11000])) =
       (?sd, None)" .
  from U[THEN conjunct2, THEN conjunct2, THEN conjunct2, THEN conjunct2, THEN conjunct2,
         rule_format, OF d2]
  have d: "Simple_StoreDeletedMessage ?sd (simple_deleted_doc ''1'' 100) (Some (OtherError ''socket timeout'')) =
       (?sd, Some (OtherError ''socket timeout''))" .
  from a ne b mv d1 c d2 d show ?thesis by (intro conjI)
qed

subsection \<open>Events the handlers discard\<close>

text \<open>
  C10. When the author of the incoming message (for an edit: of the edited
  message) is a bot account, \<open>processMessage\<close>, \<open>processDeletedMessage\<close> and
  \<open>processEditedMessage\<close> return before any \<open>Store\<close> call: the store is left
  exactly as it was, whatever the store would have answered.
\<close>

theorem bot_authors_are_discarded:
  assumes "msg_Author m = Some author" and "user_Bot author"
  shows "processMessage env userID r1 r2 m d = Inr d
       \<and> processDeletedMessage env userID r (Some m) d = d
       \<and> processEditedMessage env userID r bo (Some m) d = d"
  using assms
  by (simp add: processMessage_def processDeletedMessage_def processEditedMessage_def
      split: option.splits)

theorem bot_authors_are_discarded_witness:
  "msg_Author bot_message = Some \<lparr>user_ID = ''77'', user_Username = ''helper'', user_Bot = True\<rparr>
   \<and> user_Bot \<lparr>user_ID = ''77'', user_Username = ''helper'', user_Bot = True\<rparr>
   \<and> processMessage quiet_env ''42'' None None bot_message empty_store = Inr empty_store
   \<and> processDeletedMessage quiet_env ''42'' None (Some bot_message) empty_store = empty_store
   \<and> processEditedMessage quiet_env ''42'' None (Some own_message) (Some bot_message) empty_store
       = empty_store"
proof -
  have a: "msg_Author bot_message =
      Some \<lparr>user_ID = ''77'', user_Username = ''helper'', user_Bot = True\<rparr>"
    by (simp add: bot_message_def)
  have b: "user_Bot \<lparr>user_ID = ''77'', user_Username = ''helper'', user_Bot = True\<rparr>"
    by simp
  from bot_authors_are_discarded[OF a b, of quiet_env "''42''" None None empty_store None
      "Some own_message"] a b
  show ?thesis by simp
qed

text \<open>
  C9 as stated fails: a deletion whose author is the own account (42) leaves no
  record at all, although the store would have accepted one.
\<close>

theorem own_deletion_counterexample:
  "msg_Author own_message = Some \<lparr>user_ID = ''42'', user_Username = ''me'', user_Bot = False\<rparr>
   \<and> deleted_messages (processDeletedMessage quiet_env ''42'' None (Some own_message) empty_store)
       = []"
  by (simp add: processDeletedMessage_def own_message_def empty_store_def)

text \<open>
  C9, amended. \<open>processDeletedMessage\<close> returns before the \<open>Store\<close> call when the
  author of the deleted message is the own account: no deleted-message record is
  persisted for the event, and the store is left exactly as it was.
\<close>

theorem own_deletions_are_discarded:
  assumes "msg_Author m = Some author" and "user_ID author = userID"
  shows "processDeletedMessage env userID r (Some m) d = d"
  using assms by (simp add: processDeletedMessage_def)

theorem own_deletions_are_discarded_witness:
  "msg_Author own_message = Some \<lparr>user_ID = ''42'', user_Username = ''me'', user_Bot = False\<rparr>
   \<and> user_ID \<lparr>user_ID = ''42'', user_Username = ''me'', user_Bot = False\<rparr> = ''42''
   \<and> processDeletedMessage quiet_env ''42'' None (Some own_message) empty_store = empty_store"
proof -
  have a: "msg_Author own_message =
      Some \<lparr>user_ID = ''42'', user_Username = ''me'', user_Bot = False\<rparr>"
    by (simp add: own_message_def)
  have b: "user_ID \<lparr>user_ID = ''42'', user_Username = ''me'', user_Bot = False\<rparr> = ''42''"
    by simp
  from own_deletions_are_discarded[OF a b, of quiet_env None empty_store] a b
  show ?thesis by simp
qed

text \<open>A deletion by another, human account is stored with its author and content.\<close>

lemma other_deletion_is_stored:
  "deleted_messages (processDeletedMessage quiet_env ''43'' None (Some own_message) empty_store) =
     [\<lparr>sdel_MessageID = ''900'', sdel_UserID = ''42'', sdel_Username = ''me'',
       sdel_Content = ''hello'', sdel_DeletedAt = 1700000000, sdel_ChannelID = ''7'',
       sdel_ChannelName = [], sdel_ChannelType = [], sdel_IsGroup = False,
       sdel_Attachments = [], sdel_GuildID = [], sdel_GuildName = []\<rparr>]"
  by (simp add: processDeletedMessage_def own_message_def empty_store_def quiet_env_def
      Simple_StoreDeletedMessage_def InsertOne_def attachment_urls_def)

subsection \<open>Shutdown\<close>

lemma processBatch_not_exited:
  "processBatch bs cn nm c r p = Some p' \<Longrightarrow> pc p \<noteq> Exited"
  by (auto simp: processBatch_def split: pc.splits choice.splits)

lemma running_same:
  assumes "(pc p' = Exited) = (pc (pipes d k) = Exited)"
  shows "running (d\<lparr>pipes := (pipes d)(k := p'), wg := w\<rparr>) = running d"
  using assms by (cases k) (simp_all add: running_def all_kinds_def)

lemma running_exit:
  assumes "pc p' = Exited" and "pc (pipes d k) \<noteq> Exited"
  shows "running (d\<lparr>pipes := (pipes d)(k := p'), wg := w\<rparr>) = running d - 1"
    and "0 < running d"
  using assms by (cases k; simp add: running_def all_kinds_def)+

lemma running_zero: "(running d = 0) = (\<forall>k. pc (pipes d k) = Exited)"
proof
  assume z: "running d = 0"
  show "\<forall>k. pc (pipes d k) = Exited"
  proof
    fix k
    from z show "pc (pipes d k) = Exited"
      by (cases k) (simp_all add: running_def all_kinds_def split: if_splits)
  qed
next
  assume "\<forall>k. pc (pipes d k) = Exited"
  then show "running d = 0" by (simp add: running_def all_kinds_def)
qed

lemma close_inv_New: "close_inv New"
  by (simp add: close_inv_def New_def new_pipe_def running_def all_kinds_def)

lemma store_other_fields:
  assumes "store k d x = Inr (d', u)"
  shows "wg d' = wg d" "client_connected d' = client_connected d"
    "close_state d' = close_state d" "ctx_done d' = ctx_done d"
    "pc (pipes d' j) = pc (pipes d j)" "coll (pipes d' j) = coll (pipes d j)"
    "batch (pipes d' j) = batch (pipes d j)"
  using assms by (auto simp: store_unfold try_send_def split: if_splits)

lemma store_running:
  assumes "store k d x = Inr (d', u)"
  shows "running d' = running d"
  using store_other_fields(5)[OF assms] by (simp add: running_def)

lemma proc_step_close_inv:
  assumes "proc_step k c r d = Some d'" and "close_inv d"
  shows "close_inv d'"
proof -
  from assms(1) obtain p where
    p: "processBatch (batchSize d) (ctx_done d) (collectionName k) c r (pipes d k) = Some p"
    and d': "d' = d\<lparr>pipes := (pipes d)(k := p), wg := (if pc p = Exited then wg d - 1 else wg d)\<rparr>"
    by (rule proc_step_pipes)
  from p have ne: "pc (pipes d k) \<noteq> Exited" by (rule processBatch_not_exited)
  show ?thesis
  proof (cases "pc p = Exited")
    case True
    from running_exit[OF True ne] d' have "running d' = running d - 1" "0 < running d" by simp_all
    with assms(2) True d' show ?thesis by (auto simp: close_inv_def)
  next
    case False
    with ne have "(pc p = Exited) = (pc (pipes d k) = Exited)" by simp
    from running_same[OF this] d' have "running d' = running d" by simp
    with assms(2) False d' show ?thesis by (auto simp: close_inv_def)
  qed
qed

lemma step_close_inv:
  assumes "step e d = Some d'" and "close_inv d"
  shows "close_inv d'"
proof (cases e)
  case (Store k x)
  with assms(1) obtain u where s: "store k d x = Inr (d', u)" by (auto split: sum.splits)
  from store_other_fields(1-4)[OF s] store_running[OF s] assms(2) show ?thesis
    by (simp add: close_inv_def)
next
  case (TickerFire k)
  with assms(1) have d': "d' = d\<lparr>pipes := (pipes d)(k := (pipes d k)\<lparr>tickC := True\<rparr>)\<rparr>"
    by (auto split: if_splits)
  then have "running d' = running d" by (cases k) (simp_all add: running_def all_kinds_def)
  with assms(2) d' show ?thesis by (simp add: close_inv_def)
next
  case (Proc k c r)
  with assms show ?thesis by (auto dest: proc_step_close_inv)
next
  case CloseBegin
  with assms(1) have d': "d' = d\<lparr>ctx_done := True, close_state := Waiting\<rparr>"
    "close_state d = NotCalled"
    by (auto simp: Close_begin_def split: if_splits)
  then have "running d' = running d" by (simp add: running_def)
  with assms(2) d' show ?thesis by (simp add: close_inv_def)
next
  case CloseEnd
  with assms(1) have d': "d' = d\<lparr>pipes := (\<lambda>k. (pipes d k)\<lparr>chan_closed := True\<rparr>),
                   client_connected := False, close_state := Returned\<rparr>"
    "close_state d = Waiting" "wg d = 0"
    by (auto simp: Close_end_def split: if_splits)
  then have "running d' = running d" by (simp add: running_def)
  with assms(2) d' show ?thesis by (simp add: close_inv_def)
qed

lemma run_close_inv:
  "run es d = Some d' \<Longrightarrow> close_inv d \<Longrightarrow> close_inv d'"
  by (induction es arbitrary: d) (auto split: option.splits dest: step_close_inv)


lemma after_shutdown_run: "run shutdown_schedule New = Some after_shutdown"
  by (simp add: shutdown_schedule_def after_shutdown_def New_def new_pipe_def
      StoreDeletedMessage_def try_send_def proc_step_def processBatch_def flushBatch_def
      flush_logs_def InsertMany_def Close_begin_def Close_end_def fun_eq_iff)
     (meson kind.exhaust)




subsection \<open>What shutdown persists\<close>

lemma processBatch_held:
  assumes "processBatch bs cn nm c None p = Some p'"
  shows "held p' = held p"
  using assms
  by (auto simp: processBatch_def Let_def held_def flushBatch_def InsertMany_def
      split: pc.splits choice.splits if_splits list.splits)

lemma step_held:
  assumes "step e d = Some d'" and "no_failure e"
  shows "held (pipes d' k) = held (pipes d k) @ accepted_by k e d"
proof (cases e)
  case (Store j x)
  with assms(1) obtain u where s: "store j d x = Inr (d', u)" by (auto split: sum.splits)
  then show ?thesis
    unfolding Store by (auto simp: store_unfold try_send_def held_def split: if_splits)
next
  case (TickerFire j)
  with assms(1) show ?thesis by (auto simp: held_def split: if_splits)
next
  case (Proc j c r)
  with assms have "proc_step j c None d = Some d'" by simp
  then obtain p where
    p: "processBatch (batchSize d) (ctx_done d) (collectionName j) c None (pipes d j) = Some p"
    and d': "d' = d\<lparr>pipes := (pipes d)(j := p), wg := (if pc p = Exited then wg d - 1 else wg d)\<rparr>"
    by (rule proc_step_pipes)
  from processBatch_held[OF p] d' show ?thesis unfolding Proc by simp
next
  case CloseBegin
  with assms(1) show ?thesis by (auto simp: Close_begin_def held_def split: if_splits)
next
  case CloseEnd
  with assms(1) show ?thesis by (auto simp: Close_end_def held_def split: if_splits)
qed

lemma run_held:
  "run es d = Some d' \<Longrightarrow> list_all no_failure es \<Longrightarrow>
     held (pipes d' k) = held (pipes d k) @ accepted k es d"
proof (induction es arbitrary: d)
  case Nil
  then show ?case by simp
next
  case (Cons e es)
  from Cons.prems(1) obtain d1 where e: "step e d = Some d1" and r: "run es d1 = Some d'"
    by (auto split: option.splits)
  from Cons.prems(2) have nf: "no_failure e" "list_all no_failure es" by simp_all
  from Cons.IH[OF r nf(2)] step_held[OF e nf(1), of k] e show ?case by simp
qed

text \<open>
  C5 as stated fails: three deleted-message records are pending when \<open>Close\<close> is
  called, one in the batch and two in the channel; the store answers every
  insert with success; when \<open>Close\<close> has disconnected the client only the first
  record is in the store, and the other two are still in the closed channel.
\<close>

theorem shutdown_drain_counterexample:
  "run shutdown_schedule New = Some after_shutdown
   \<and> list_all no_failure shutdown_schedule
   \<and> accepted Deleted shutdown_schedule New = [1, 2, 3]
   \<and> \<not> client_connected after_shutdown
   \<and> coll (pipes after_shutdown Deleted) = [1]
   \<and> buf (pipes after_shutdown Deleted) = [2, 3]"
proof -
  have "list_all no_failure shutdown_schedule" by (simp add: shutdown_schedule_def)
  moreover have "accepted Deleted shutdown_schedule New = [1, 2, 3]"
    by (simp add: shutdown_schedule_def New_def new_pipe_def
      StoreDeletedMessage_def try_send_def proc_step_def processBatch_def flushBatch_def
      flush_logs_def InsertMany_def Close_begin_def Close_end_def)
  moreover have "\<not> client_connected after_shutdown" "coll (pipes after_shutdown Deleted) = [1]"
    "buf (pipes after_shutdown Deleted) = [2, 3]"
    by (simp_all add: after_shutdown_def)
  ultimately show ?thesis using after_shutdown_run by simp
qed

text \<open>
  C5, amended. On a shutdown without store failures, when \<open>Close\<close> has released the
  client every goroutine has returned, and the records that were put into the
  channel of a kind are, in order, the records of that kind's collection (the
  ones a later query reads) followed by the records still in the channel: every
  record a goroutine had taken out of its channel is persisted, the final batch
  included, and the records it had not yet taken out are not.
\<close>

theorem shutdown_persists_dequeued_records:
  assumes "run es New = Some d" and "list_all no_failure es" and "\<not> client_connected d"
  shows "pc (pipes d k) = Exited
       \<and> coll (pipes d k) @ buf (pipes d k) = accepted k es New"
proof -
  from assms(1) have "close_inv d" by (rule run_close_inv) (rule close_inv_New)
  with assms(3) have "running d = 0" by (simp add: close_inv_def)
  then have ex: "pc (pipes d k) = Exited" by (simp add: running_zero)
  have "held (pipes New k) = []" by (simp add: held_def New_def new_pipe_def)
  with run_held[OF assms(1,2), of k] have "held (pipes d k) = accepted k es New" by simp
  with ex show ?thesis by (simp add: held_def)
qed

theorem shutdown_persists_dequeued_records_witness:
  "run shutdown_schedule New = Some after_shutdown
   \<and> list_all no_failure shutdown_schedule
   \<and> \<not> client_connected after_shutdown
   \<and> pc (pipes after_shutdown Deleted) = Exited
   \<and> accepted Deleted shutdown_schedule New = [1] @ [2, 3]"
proof -
  have nf: "list_all no_failure shutdown_schedule" by (simp add: shutdown_schedule_def)
  have nc: "\<not> client_connected after_shutdown" by (simp add: after_shutdown_def)
  have cb: "coll (pipes after_shutdown Deleted) = [1]" "buf (pipes after_shutdown Deleted) = [2, 3]"
    by (simp_all add: after_shutdown_def)
  from shutdown_persists_dequeued_records[OF after_shutdown_run nf nc, of Deleted] cb
  have "pc (pipes after_shutdown Deleted) = Exited"
    "accepted Deleted shutdown_schedule New = [1] @ [2, 3]"
    by simp_all
  with after_shutdown_run nf nc show ?thesis by simp
qed

subsection \<open>How a goroutine waits\<close>

lemma idle_round:
  assumes "pc (pipes d k) = AtSelect" and "\<not> ctx_done d" and "\<not> tickC (pipes d k)"
  shows "run [Proc k SelDefault r, Proc k InnerTimeout r] d = Some d"
  using assms by (simp add: proc_step_def processBatch_def fun_eq_iff)

lemma idle_rounds:
  assumes "pc (pipes d k) = AtSelect" and "\<not> ctx_done d" and "\<not> tickC (pipes d k)"
  shows "run (concat (replicate n [Proc k SelDefault r, Proc k InnerTimeout r])) d = Some d"
proof (induction n)
  case 0
  show ?case by simp
next
  case (Suc n)
  have "run (concat (replicate (Suc n) [Proc k SelDefault r, Proc k InnerTimeout r])) d
      = run ([Proc k SelDefault r, Proc k InnerTimeout r]
             @ concat (replicate n [Proc k SelDefault r, Proc k InnerTimeout r])) d"
    by simp
  also have "\<dots> = run (concat (replicate n [Proc k SelDefault r, Proc k InnerTimeout r])) d"
    unfolding run_append idle_round[OF assms] by simp
  finally show ?case using Suc.IH by simp
qed

text \<open>
  C7 as stated fails: with an empty channel, no tick and no cancellation, the
  message goroutine of \<open>New\<close> leaves its inner \<open>select\<close> through the 10 ms timer
  and comes back to it, three times in a row here, with nothing changed.
\<close>

theorem idle_polling_counterexample:
  "buf (pipes (New :: nat database) Message) = []
   \<and> \<not> tickC (pipes (New :: nat database) Message) \<and> \<not> ctx_done (New :: nat database)
   \<and> run [Proc Message SelDefault None, Proc Message InnerTimeout None,
          Proc Message SelDefault None, Proc Message InnerTimeout None,
          Proc Message SelDefault None, Proc Message InnerTimeout None] (New :: nat database)
       = Some New"
  by (simp add: New_def new_pipe_def proc_step_def processBatch_def fun_eq_iff)

text \<open>
  C7, amended. The outer \<open>select\<close> never suspends the goroutine: one of its three
  cases can always run (the \<open>default\<close> case when the context is not cancelled and
  no tick waits). The goroutine suspends only at the inner \<open>select\<close>, on the
  channel receive raced against a 10 ms timer, and the timer case always brings
  it back to the outer \<open>select\<close>. While the channel stays empty, no tick waits and
  the context is not cancelled, any number of such rounds can follow one another
  and each leaves the state as it was: the loop polls.
\<close>

theorem accumulator_polls_with_timeout:
  "(pc (pipes d k) = AtSelect \<longrightarrow>
      step (Proc k (if ctx_done d then SelDone
                    else if tickC (pipes d k) then SelTick else SelDefault) r) d \<noteq> None)
   \<and> (pc (pipes d k) = AtInner \<longrightarrow>
        step (Proc k InnerTimeout r) d =
          Some (d\<lparr>pipes := (pipes d)(k := (pipes d k)\<lparr>pc := AtSelect\<rparr>)\<rparr>))
   \<and> (pc (pipes d k) = AtSelect \<longrightarrow> \<not> ctx_done d \<longrightarrow> \<not> tickC (pipes d k) \<longrightarrow>
        run (concat (replicate n [Proc k SelDefault r, Proc k InnerTimeout r])) d = Some d)"
proof (intro conjI impI)
  assume "pc (pipes d k) = AtSelect"
  then show "step (Proc k (if ctx_done d then SelDone
                    else if tickC (pipes d k) then SelTick else SelDefault) r) d \<noteq> None"
    by (simp add: proc_step_def processBatch_def)
next
  assume "pc (pipes d k) = AtInner"
  then show "step (Proc k InnerTimeout r) d =
          Some (d\<lparr>pipes := (pipes d)(k := (pipes d k)\<lparr>pc := AtSelect\<rparr>)\<rparr>)"
    by (simp add: proc_step_def processBatch_def)
next
  assume "pc (pipes d k) = AtSelect" "\<not> ctx_done d" "\<not> tickC (pipes d k)"
  then show "run (concat (replicate n [Proc k SelDefault r, Proc k InnerTimeout r])) d = Some d"
    by (rule idle_rounds)
qed

theorem accumulator_polls_with_timeout_witness:
  "pc (pipes (New :: nat database) Edited) = AtSelect
   \<and> \<not> ctx_done (New :: nat database) \<and> \<not> tickC (pipes (New :: nat database) Edited)
   \<and> step (Proc Edited SelDefault None) (New :: nat database) \<noteq> None
   \<and> run (concat (replicate 100 [Proc Edited SelDefault None, Proc Edited InnerTimeout None]))
        (New :: nat database) = Some New
   \<and> pc (pipes deleted_batch_999 Deleted) = AtInner
   \<and> step (Proc Deleted InnerTimeout None) deleted_batch_999 =
        Some (deleted_batch_999\<lparr>pipes := (pipes deleted_batch_999)(Deleted :=
                (pipes deleted_batch_999 Deleted)\<lparr>pc := AtSelect\<rparr>)\<rparr>)"
proof -
  have a: "pc (pipes (New :: nat database) Edited) = AtSelect"
    "\<not> ctx_done (New :: nat database)" "\<not> tickC (pipes (New :: nat database) Edited)"
    by (simp_all add: New_def new_pipe_def)
  have b: "pc (pipes deleted_batch_999 Deleted) = AtInner"
    by (simp add: deleted_batch_999_def new_pipe_def)
  note T = accumulator_polls_with_timeout[where d = "New :: nat database" and k = Edited
      and r = None and n = 100]
  note U = accumulator_polls_with_timeout[where d = deleted_batch_999 and k = Deleted
      and r = None and n = 0]
  from T[THEN conjunct1, rule_format, OF a(1)] a(2,3)
  have c: "step (Proc Edited SelDefault None) (New :: nat database) \<noteq> None" by simp
  from T[THEN conjunct2, THEN conjunct2, rule_format, OF a]
  have d: "run (concat (replicate 100 [Proc Edited SelDefault None, Proc Edited InnerTimeout None]))
        (New :: nat database) = Some New" .
  from U[THEN conjunct2, THEN conjunct1, rule_format, OF b]
  have e: "step (Proc Deleted InnerTimeout None) deleted_batch_999 =
        Some (deleted_batch_999\<lparr>pipes := (pipes deleted_batch_999)(Deleted :=
                (pipes deleted_batch_999 Deleted)\<lparr>pc := AtSelect\<rparr>)\<rparr>)" .
  from a c d b e show ?thesis by (intro conjI)
qed

subsection \<open>Queries\<close>








lemma two_deleted_run: "run two_deleted_schedule New = Some two_deleted"
  by (simp add: two_deleted_schedule_def two_deleted_def New_def new_pipe_def
      StoreDeletedMessage_def try_send_def proc_step_def processBatch_def flushBatch_def
      flush_logs_def InsertMany_def fun_eq_iff)




end
